theory Spec2Isabelle
  imports Complex_Main
begin

section \<open>Regular-expression matching as used by \<open>parse_rule\<close>\<close>

text \<open>
  Both homeostat classes recognise a rule sentence with \<^verbatim>\<open>re.match\<close> and a fixed pattern.
  The pattern language needed is small: literal text, the greedy repetition \<^verbatim>\<open>X+\<close> of a
  character class, one alternation and the wildcard \<^verbatim>\<open>.\<close>. Each construct is a combinator
  in continuation-passing style: it consumes a piece of the input and hands the rest to the
  continuation; \<open>None\<close> from the continuation makes the construct try its next candidate,
  in the order of a backtracking matcher. The first complete match is the result, and
  \<^verbatim>\<open>re.match\<close> anchors at the start of the text only.

  Text is ASCII: the classes \<^verbatim>\<open>\w\<close>, \<^verbatim>\<open>\s\<close> and \<^verbatim>\<open>\d\<close> are restricted to their ASCII members.
\<close>

definition is_digit :: "char \<Rightarrow> bool" where
  "is_digit c = (c \<in> set ''0123456789'')"

definition is_word :: "char \<Rightarrow> bool" where
  "is_word c = (c \<in> set ''abcdefghijklmnopqrstuvwxyzABCDEFGHIJKLMNOPQRSTUVWXYZ0123456789_'')"

definition is_space :: "char \<Rightarrow> bool" where
  "is_space c = (c \<in> set [CHR '' '', CHR 0x09, CHR 0x0A, CHR 0x0B, CHR 0x0C, CHR 0x0D,
                          CHR 0x1C, CHR 0x1D, CHR 0x1E, CHR 0x1F])"

definition is_word_or_space :: "char \<Rightarrow> bool" where
  "is_word_or_space c = (is_word c \<or> is_space c)"

text \<open>Literal text of the pattern.\<close>

fun lit :: "string \<Rightarrow> string \<Rightarrow> (string \<Rightarrow> 'a option) \<Rightarrow> 'a option" where
  "lit [] s k = k s"
| "lit (c # l) [] k = None"
| "lit (c # l) (d # s) k = (if c = d then lit l s k else None)"

text \<open>
  Greedy \<^verbatim>\<open>X+\<close> for a character class: consume while the class holds, then give characters
  back one at a time while the continuation fails, never below one character. \<open>acc\<close> is
  what has been consumed so far.
\<close>

fun plus :: "(char \<Rightarrow> bool) \<Rightarrow> string \<Rightarrow> string \<Rightarrow> (string \<Rightarrow> string \<Rightarrow> 'a option) \<Rightarrow> 'a option" where
  "plus P acc [] k = (if acc = [] then None else k acc [])"
| "plus P acc (c # s) k =
     (if P c then
        (case plus P (acc @ [c]) s k of
           Some r \<Rightarrow> Some r
         | None \<Rightarrow> (if acc = [] then None else k acc (c # s)))
      else (if acc = [] then None else k acc (c # s)))"

text \<open>Alternation \<^verbatim>\<open>A|B\<close>: the left branch first.\<close>

definition orelse :: "'a option \<Rightarrow> 'a option \<Rightarrow> 'a option" where
  "orelse a b = (case a of Some r \<Rightarrow> Some r | None \<Rightarrow> b)"

text \<open>The wildcard \<^verbatim>\<open>.\<close>: any character but a newline.\<close>

fun dot :: "string \<Rightarrow> (string \<Rightarrow> 'a option) \<Rightarrow> 'a option" where
  "dot [] k = None"
| "dot (c # s) k = (if c = CHR 0x0A then None else k s)"

text \<open>The group \<^verbatim>\<open>(\w+ \w+|\w+)\<close> of both patterns.\<close>

definition comparison_group :: "string \<Rightarrow> (string \<Rightarrow> string \<Rightarrow> 'a option) \<Rightarrow> 'a option" where
  "comparison_group s k =
     orelse
       (plus is_word [] s (\<lambda>a s. lit '' '' s (\<lambda>s. plus is_word [] s (\<lambda>b s. k (a @ '' '' @ b) s))))
       (plus is_word [] s k)"

text \<open>\<^verbatim>\<open>int(...)\<close> on a group matched by \<^verbatim>\<open>\d+\<close>.\<close>

definition digit_value :: "char \<Rightarrow> nat" where
  "digit_value c = of_char c - 48"

definition int_of_digits :: "string \<Rightarrow> nat" where
  "int_of_digits ds = foldl (\<lambda>n c. 10 * n + digit_value c) 0 ds"

section \<open>\<open>Homeostat.parse_rule\<close>\<close>

text \<open>
  \<^verbatim>\<open>re.match(r"If the (\w+) is (\w+ \w+|\w+) the setpoint, then (\w+) the (\w+) by (\d+).", rule)\<close>:
  the five groups of the first match, or \<open>None\<close>.
\<close>

definition rule_match :: "string \<Rightarrow> (string \<times> string \<times> string \<times> string \<times> string) option" where
  "rule_match rule =
     lit ''If the '' rule (\<lambda>s.
     plus is_word [] s (\<lambda>g1 s.
     lit '' is '' s (\<lambda>s.
     comparison_group s (\<lambda>g2 s.
     lit '' the setpoint, then '' s (\<lambda>s.
     plus is_word [] s (\<lambda>g3 s.
     lit '' the '' s (\<lambda>s.
     plus is_word [] s (\<lambda>g4 s.
     lit '' by '' s (\<lambda>s.
     plus is_digit [] s (\<lambda>g5 s.
     dot s (\<lambda>s. Some (g1, g2, g3, g4, g5))))))))))))"

definition parse_rule :: "string \<Rightarrow> (string \<times> string \<times> string \<times> nat) option" where
  "parse_rule rule =
     (case rule_match rule of
        Some (var_condition, comparison, adjustment, var_action, amount) \<Rightarrow>
          if var_condition \<noteq> var_action then None
          else Some (var_condition, comparison, adjustment, int_of_digits amount)
      | None \<Rightarrow> None)"

section \<open>\<open>BarHomeostat.parse_rule\<close>\<close>

text \<open>\<^verbatim>\<open>str.strip('.')\<close>: full stops removed from both ends.\<close>

definition strip_dots :: "string \<Rightarrow> string" where
  "strip_dots s = rev (dropWhile (\<lambda>c. c = CHR ''.'') (rev (dropWhile (\<lambda>c. c = CHR ''.'') s)))"

text \<open>
  \<^verbatim>\<open>re.match(r"If the ([\w\s]+) is (\w+ \w+|\w+) the setpoint, then (\w+) the ([\w\s]+) by (\d+) using ([\w\s]+).", rule)\<close>
\<close>

definition bar_rule_match ::
  "string \<Rightarrow> (string \<times> string \<times> string \<times> string \<times> string \<times> string) option" where
  "bar_rule_match rule =
     lit ''If the '' rule (\<lambda>s.
     plus is_word_or_space [] s (\<lambda>g1 s.
     lit '' is '' s (\<lambda>s.
     comparison_group s (\<lambda>g2 s.
     lit '' the setpoint, then '' s (\<lambda>s.
     plus is_word [] s (\<lambda>g3 s.
     lit '' the '' s (\<lambda>s.
     plus is_word_or_space [] s (\<lambda>g4 s.
     lit '' by '' s (\<lambda>s.
     plus is_digit [] s (\<lambda>g5 s.
     lit '' using '' s (\<lambda>s.
     plus is_word_or_space [] s (\<lambda>g6 s.
     dot s (\<lambda>s. Some (g1, g2, g3, g4, g5, g6))))))))))))))"

definition bar_parse_rule :: "string \<Rightarrow> (string \<times> string \<times> string \<times> nat \<times> string) option" where
  "bar_parse_rule rule =
     (case bar_rule_match rule of
        Some (var_condition, comparison, adjustment, var_action, amount, label) \<Rightarrow>
          if var_condition \<noteq> var_action then None
          else Some (var_condition, comparison, adjustment, int_of_digits amount, strip_dots label)
      | None \<Rightarrow> None)"

section \<open>Data model\<close>

text \<open>
  State and setpoint are Python dictionaries from variable names to numbers: association
  lists in insertion order, read with \<^const>\<open>map_of\<close>. Numbers are the reals that Python's
  floats denote. \<open>self.setpoint[var]\<close> on a missing key raises \<^verbatim>\<open>KeyError\<close>, the only error
  the two classes can raise.
\<close>

type_synonym dict = "(string \<times> real) list"

datatype error = KeyError string

text \<open>
  The two tolerance tests, \<^verbatim>\<open>abs(a - b) < 0.01\<close>, are decided at the boundary by the rounding
  of binary64: the difference is the correctly rounded one and the literal \<^verbatim>\<open>0.01\<close> is the
  float nearest to \<open>1/100\<close>. \<open>round64\<close> rounds a real to 53 significant bits, to nearest,
  ties to even; \<open>rne\<close> is the rounding of the scaled significand to an integer. The range
  of the exponent is not bounded: overflow and subnormal numbers are outside the model.
  A value of the state is the real its float denotes: what Python writes \<^verbatim>\<open>5.01\<close> is the
  number \<open>2820379266640773 / 562949953421312\<close>, and the numbers 10, 5 or \<open>1/128\<close> are
  floats as they stand. The sums that move the state (the noise of a perturbation, the
  amount of a rule) are exact.
\<close>

definition rne :: "real \<Rightarrow> int" where
  "rne m = (let f = \<lfloor>m\<rfloor> in
            if m - of_int f < 1/2 then f
            else if m - of_int f > 1/2 then f + 1
            else if even f then f else f + 1)"

definition round64 :: "real \<Rightarrow> real" where
  "round64 x =
     (if x = 0 then 0
      else (let e = \<lfloor>log 2 \<bar>x\<bar>\<rfloor>; u = 2 powr of_int (e - 52)
            in sgn x * of_int (rne (\<bar>x\<bar> / u)) * u))"

text \<open>The float subtraction \<^verbatim>\<open>a - b\<close> and the literal \<^verbatim>\<open>0.01\<close>.\<close>

definition fsub :: "real \<Rightarrow> real \<Rightarrow> real" where
  "fsub a b = round64 (a - b)"

definition tolerance :: real where
  "tolerance = round64 (1 / 100)"

text \<open>Assignment \<^verbatim>\<open>d[k] = v\<close>: an existing key keeps its place, a new one goes last.\<close>

fun dict_set :: "string \<Rightarrow> real \<Rightarrow> dict \<Rightarrow> dict" where
  "dict_set k v [] = [(k, v)]"
| "dict_set k v ((k', v') # d) = (if k' = k then (k, v) # d else (k', v') # dict_set k v d)"

text \<open>One constructor per \<^verbatim>\<open>print\<close> statement of the two \<open>run\<close> loops and their helpers.\<close>

datatype event =
    Stabilized
  | Perturbation string real
  | Applied string string real
  | BarApplied string string string real
  | NoRule
  | Iteration int dict
  | MaxIterations

text \<open>
  The fields set by \<^verbatim>\<open>__init__\<close> (the same in both classes), with the lines printed so far
  and the number of values drawn from the random generator so far.
\<close>

record homeostat =
  state :: dict
  setpoint :: dict
  rules :: "string list"
  max_iterations :: int
  perturbation_chance :: real
  history :: "dict list"
  printed :: "event list"
  draws :: nat

definition init :: "dict \<Rightarrow> dict \<Rightarrow> string list \<Rightarrow> int \<Rightarrow> real \<Rightarrow> homeostat" where
  "init initial_state sp rs max_it chance =
     \<lparr>state = initial_state, setpoint = sp, rules = rs, max_iterations = max_it,
      perturbation_chance = chance, history = [], printed = [], draws = 0\<rparr>"

text \<open>
  The random generator is a stream \<open>rnd\<close>: \<open>rnd i\<close> is what the \<open>i\<close>-th call of
  \<^verbatim>\<open>random.random()\<close> returns, a number in \<open>[0, 1)\<close>. \<^verbatim>\<open>random.uniform(a, b)\<close> is
  \<^verbatim>\<open>a + (b - a) * random()\<close>.
\<close>

definition valid_source :: "(nat \<Rightarrow> real) \<Rightarrow> bool" where
  "valid_source rnd = (\<forall>i. 0 \<le> rnd i \<and> rnd i < 1)"

definition uniform :: "real \<Rightarrow> real \<Rightarrow> real \<Rightarrow> real" where
  "uniform a b r = a + (b - a) * r"

section \<open>\<open>Homeostat\<close>\<close>

text \<open>\<open>apply_perturbation\<close>: the variables of the state in order, one or two draws each.\<close>

fun perturb :: "(nat \<Rightarrow> real) \<Rightarrow> real \<Rightarrow> dict \<Rightarrow> nat \<Rightarrow> dict \<times> event list \<times> nat" where
  "perturb rnd chance [] n = ([], [], n)"
| "perturb rnd chance ((var, x) # st) n =
     (if rnd n < chance then
        (let noise = uniform (- 1) 1 (rnd (n + 1));
             (st', out, n') = perturb rnd chance st (n + 2)
         in ((var, x + noise) # st', Perturbation var noise # out, n'))
      else
        (let (st', out, n') = perturb rnd chance st (n + 1)
         in ((var, x) # st', out, n')))"

definition apply_perturbation :: "(nat \<Rightarrow> real) \<Rightarrow> homeostat \<Rightarrow> homeostat" where
  "apply_perturbation rnd h =
     (case perturb rnd (perturbation_chance h) (state h) (draws h) of
        (st', out, n') \<Rightarrow> h\<lparr>state := st', printed := printed h @ out, draws := n'\<rparr>)"

text \<open>
  The stability check \<^verbatim>\<open>all(abs(self.state[var] - self.setpoint[var]) < 0.01 for var in self.state)\<close>:
  \<^verbatim>\<open>all\<close> stops at the first variable out of tolerance.
\<close>

fun stable_check :: "dict \<Rightarrow> dict \<Rightarrow> error + bool" where
  "stable_check [] sp = Inr True"
| "stable_check ((var, x) # st) sp =
     (case map_of sp var of
        None \<Rightarrow> Inl (KeyError var)
      | Some target \<Rightarrow> if \<bar>fsub x target\<bar> < tolerance then stable_check st sp else Inr False)"

text \<open>The condition of a rule, on the comparison phrase the pattern captured.\<close>

definition condition :: "string \<Rightarrow> real \<Rightarrow> real \<Rightarrow> bool" where
  "condition comparison current target =
     ((comparison = ''above'' \<and> current > target) \<or>
      (comparison = ''below'' \<and> current < target) \<or>
      (comparison = ''equal to'' \<and> \<bar>fsub current target\<bar> < tolerance))"

text \<open>The action of a rule on the value of its variable.\<close>

definition adjust :: "string \<Rightarrow> nat \<Rightarrow> real \<Rightarrow> real" where
  "adjust adjustment amount current =
     (if adjustment = ''decrease'' then current - real amount
      else if adjustment = ''increase'' then current + real amount
      else current)"

text \<open>
  The \<^verbatim>\<open>for rule in self.rules\<close> loop of \<open>run\<close>; the flag returned is \<open>applied\<close>.
  \<^verbatim>\<open>continue\<close> and a false condition go on to the next rule, \<^verbatim>\<open>break\<close> ends the loop.
\<close>

fun apply_rules :: "string list \<Rightarrow> homeostat \<Rightarrow> (error \<times> homeostat) + (bool \<times> homeostat)" where
  "apply_rules [] h = Inr (False, h)"
| "apply_rules (rule # rest) h =
     (case parse_rule rule of
        None \<Rightarrow> apply_rules rest h
      | Some (var, comparison, adjustment, amount) \<Rightarrow>
          (case map_of (state h) var of
             None \<Rightarrow> apply_rules rest h
           | Some current \<Rightarrow>
               (case map_of (setpoint h) var of
                  None \<Rightarrow> Inl (KeyError var, h)
                | Some target \<Rightarrow>
                    if condition comparison current target then
                      (let new = adjust adjustment amount current;
                           st' = (if adjustment = ''decrease'' \<or> adjustment = ''increase''
                                  then dict_set var new (state h) else state h)
                       in Inr (True, h\<lparr>state := st', printed := printed h @ [Applied rule var new]\<rparr>))
                    else apply_rules rest h)))"

text \<open>
  The \<^verbatim>\<open>while iteration < self.max_iterations\<close> loop of \<open>run\<close>; the result is the final value of
  \<open>iteration\<close> and the object, or the error raised with the object as it was then.
\<close>

function while_loop :: "(nat \<Rightarrow> real) \<Rightarrow> int \<Rightarrow> homeostat \<Rightarrow> (error \<times> homeostat) + (int \<times> homeostat)" where
  "while_loop rnd iteration h =
     (if iteration < max_iterations h then
        (let h1 = h\<lparr>history := history h @ [state h]\<rparr> in
         case stable_check (state h1) (setpoint h1) of
           Inl e \<Rightarrow> Inl (e, h1)
         | Inr True \<Rightarrow> Inr (iteration, h1\<lparr>printed := printed h1 @ [Stabilized]\<rparr>)
         | Inr False \<Rightarrow>
             (let h2 = apply_perturbation rnd h1 in
              case apply_rules (rules h2) h2 of
                Inl e \<Rightarrow> Inl e
              | Inr (applied, h3) \<Rightarrow>
                  (let h4 = (if \<not> applied then h3\<lparr>printed := printed h3 @ [NoRule]\<rparr> else h3);
                       iteration' = iteration + 1;
                       h5 = h4\<lparr>printed := printed h4 @ [Iteration iteration' (state h4)]\<rparr>
                   in while_loop rnd iteration' h5)))
      else Inr (iteration, h))"
  by pat_completeness auto

lemma apply_rules_max_iterations:
  "apply_rules rs h = Inr (b, h') \<Longrightarrow> max_iterations h' = max_iterations h"
  by (induction rs) (auto simp: Let_def split: option.splits if_splits)

lemma apply_perturbation_max_iterations [simp]:
  "max_iterations (apply_perturbation rnd h) = max_iterations h"
  by (simp add: apply_perturbation_def split: prod.splits)

termination while_loop
proof (relation "measure (\<lambda>(rnd, iteration, h). nat (max_iterations h - iteration))", goal_cases)
  case 1
  show ?case by simp
next
  case (2 rnd iteration h h1 b h2 r applied h3 h4 iteration' h5)
  from 2 have "max_iterations h3 = max_iterations h"
    using apply_rules_max_iterations [of "rules h2" h2 applied h3] by simp
  with 2 show ?case by (auto split: if_splits)
qed

declare while_loop.simps [simp del]

text \<open>\<open>run\<close>: the loop, then the message when the bound was reached. The tuple returned is
  \<open>(state h', history h')\<close> of the final object \<open>h'\<close>.\<close>

definition run :: "(nat \<Rightarrow> real) \<Rightarrow> homeostat \<Rightarrow> (error \<times> homeostat) + homeostat" where
  "run rnd h =
     (case while_loop rnd 0 h of
        Inl e \<Rightarrow> Inl e
      | Inr (iteration, h') \<Rightarrow>
          Inr (if iteration = max_iterations h' then h'\<lparr>printed := printed h' @ [MaxIterations]\<rparr>
               else h'))"

text \<open>The example of the script: its rules, state and setpoint.\<close>

definition example_rules :: "string list" where
  "example_rules =
     [''If the temperature is above the setpoint, then decrease the temperature by 2.'',
      ''If the temperature is below the setpoint, then increase the temperature by 1.'',
      ''If the temperature is equal to the setpoint, then maintain the temperature by 0.'']"

section \<open>\<open>BarHomeostat\<close>\<close>

text \<open>
  The bar variant differs in three places: the pattern of \<open>parse_rule\<close>, the noise of a
  disturbance, drawn by \<^verbatim>\<open>random.uniform(0, 2)\<close>, and the floor
  \<^verbatim>\<open>self.state[var] = max(0, self.state[var])\<close> after the action of a rule.
\<close>

fun bar_perturb :: "(nat \<Rightarrow> real) \<Rightarrow> real \<Rightarrow> dict \<Rightarrow> nat \<Rightarrow> dict \<times> event list \<times> nat" where
  "bar_perturb rnd chance [] n = ([], [], n)"
| "bar_perturb rnd chance ((var, x) # st) n =
     (if rnd n < chance then
        (let noise = uniform 0 2 (rnd (n + 1));
             (st', out, n') = bar_perturb rnd chance st (n + 2)
         in ((var, x + noise) # st', Perturbation var noise # out, n'))
      else
        (let (st', out, n') = bar_perturb rnd chance st (n + 1)
         in ((var, x) # st', out, n')))"

definition bar_apply_perturbation :: "(nat \<Rightarrow> real) \<Rightarrow> homeostat \<Rightarrow> homeostat" where
  "bar_apply_perturbation rnd h =
     (case bar_perturb rnd (perturbation_chance h) (state h) (draws h) of
        (st', out, n') \<Rightarrow> h\<lparr>state := st', printed := printed h @ out, draws := n'\<rparr>)"

fun bar_apply_rules :: "string list \<Rightarrow> homeostat \<Rightarrow> (error \<times> homeostat) + (bool \<times> homeostat)" where
  "bar_apply_rules [] h = Inr (False, h)"
| "bar_apply_rules (rule # rest) h =
     (case bar_parse_rule rule of
        None \<Rightarrow> bar_apply_rules rest h
      | Some (var, comparison, adjustment, amount, bar_action) \<Rightarrow>
          (case map_of (state h) var of
             None \<Rightarrow> bar_apply_rules rest h
           | Some current \<Rightarrow>
               (case map_of (setpoint h) var of
                  None \<Rightarrow> Inl (KeyError var, h)
                | Some target \<Rightarrow>
                    if condition comparison current target then
                      (let new = max 0 (adjust adjustment amount current)
                       in Inr (True, h\<lparr>state := dict_set var new (state h),
                                       printed := printed h @ [BarApplied rule bar_action var new]\<rparr>))
                    else bar_apply_rules rest h)))"

function bar_while_loop :: "(nat \<Rightarrow> real) \<Rightarrow> int \<Rightarrow> homeostat \<Rightarrow> (error \<times> homeostat) + (int \<times> homeostat)" where
  "bar_while_loop rnd iteration h =
     (if iteration < max_iterations h then
        (let h1 = h\<lparr>history := history h @ [state h]\<rparr> in
         case stable_check (state h1) (setpoint h1) of
           Inl e \<Rightarrow> Inl (e, h1)
         | Inr True \<Rightarrow> Inr (iteration, h1\<lparr>printed := printed h1 @ [Stabilized]\<rparr>)
         | Inr False \<Rightarrow>
             (let h2 = bar_apply_perturbation rnd h1 in
              case bar_apply_rules (rules h2) h2 of
                Inl e \<Rightarrow> Inl e
              | Inr (applied, h3) \<Rightarrow>
                  (let h4 = (if \<not> applied then h3\<lparr>printed := printed h3 @ [NoRule]\<rparr> else h3);
                       iteration' = iteration + 1;
                       h5 = h4\<lparr>printed := printed h4 @ [Iteration iteration' (state h4)]\<rparr>
                   in bar_while_loop rnd iteration' h5)))
      else Inr (iteration, h))"
  by pat_completeness auto

lemma bar_apply_rules_max_iterations:
  "bar_apply_rules rs h = Inr (b, h') \<Longrightarrow> max_iterations h' = max_iterations h"
  by (induction rs) (auto simp: Let_def split: option.splits if_splits)

lemma bar_apply_perturbation_max_iterations [simp]:
  "max_iterations (bar_apply_perturbation rnd h) = max_iterations h"
  by (simp add: bar_apply_perturbation_def split: prod.splits)

termination bar_while_loop
proof (relation "measure (\<lambda>(rnd, iteration, h). nat (max_iterations h - iteration))", goal_cases)
  case 1
  show ?case by simp
next
  case (2 rnd iteration h h1 b h2 r applied h3 h4 iteration' h5)
  from 2 have "max_iterations h3 = max_iterations h"
    using bar_apply_rules_max_iterations [of "rules h2" h2 applied h3] by simp
  with 2 show ?case by (auto split: if_splits)
qed

declare bar_while_loop.simps [simp del]

definition bar_run :: "(nat \<Rightarrow> real) \<Rightarrow> homeostat \<Rightarrow> (error \<times> homeostat) + homeostat" where
  "bar_run rnd h =
     (case bar_while_loop rnd 0 h of
        Inl e \<Rightarrow> Inl e
      | Inr (iteration, h') \<Rightarrow>
          Inr (if iteration = max_iterations h' then h'\<lparr>printed := printed h' @ [MaxIterations]\<rparr>
               else h'))"

section \<open>Evaluating the patterns on the example rules\<close>

lemmas pattern_defs = parse_rule_def rule_match_def bar_parse_rule_def bar_rule_match_def
  comparison_group_def orelse_def is_word_def is_digit_def is_space_def is_word_or_space_def
  int_of_digits_def digit_value_def strip_dots_def

lemma parse_rule_above:
  "parse_rule ''If the temperature is above the setpoint, then decrease the temperature by 2.''
     = Some (''temperature'', ''above'', ''decrease'', 2)"
  by (simp add: pattern_defs)

lemma parse_rule_below:
  "parse_rule ''If the temperature is below the setpoint, then increase the temperature by 1.''
     = Some (''temperature'', ''below'', ''increase'', 1)"
  by (simp add: pattern_defs)

lemma parse_rule_equal_to:
  "parse_rule ''If the temperature is equal to the setpoint, then maintain the temperature by 0.''
     = Some (''temperature'', ''equal to'', ''maintain'', 0)"
  by (simp add: pattern_defs)

section \<open>Rounding\<close>

lemma rne_ge_floor: "\<lfloor>m\<rfloor> \<le> rne m"
  by (simp add: rne_def Let_def)

lemma rne_of_int: "rne (of_int n) = n"
  by (simp add: rne_def)

lemma round64_binade:
  assumes "2 powr of_int e \<le> \<bar>x\<bar>" and "\<bar>x\<bar> < 2 powr of_int (e + 1)"
  shows "round64 x = sgn x * of_int (rne (\<bar>x\<bar> / 2 powr of_int (e - 52))) * 2 powr of_int (e - 52)"
proof -
  have pos: "0 < \<bar>x\<bar>"
    using assms(1) by (smt (verit) powr_gt_zero)
  then have "\<lfloor>log 2 \<bar>x\<bar>\<rfloor> = e"
    using assms by (simp add: floor_log_eq_powr_iff)
  with pos show ?thesis
    by (simp add: round64_def Let_def)
qed

lemma round64_0: "round64 0 = 0"
  by (simp add: round64_def)

lemma round64_minus: "round64 (- x) = - round64 x"
  by (simp add: round64_def Let_def sgn_minus)

lemma round64_1: "round64 1 = 1"
  using round64_binade [of 0 1] by (simp add: powr_minus rne_def)

lemma round64_3: "round64 3 = 3"
  using round64_binade [of 1 3] by (simp add: powr_minus rne_def)

lemma round64_5: "round64 5 = 5"
  using round64_binade [of 2 5] by (simp add: powr_minus rne_def)

lemma tolerance_eq: "tolerance = 5764607523034235 / 576460752303423488"
  unfolding tolerance_def
  using round64_binade [of "- 7" "1 / 100"] by (simp add: powr_minus rne_def)

lemma rne_ge: "of_int n - 1/2 < m \<Longrightarrow> n \<le> rne m"
proof -
  assume a: "of_int n - 1/2 < m"
  then have "of_int (n - 1) < m" by simp
  then have f: "n - 1 \<le> \<lfloor>m\<rfloor>" by (simp add: le_floor_iff)
  show ?thesis
  proof (cases "n \<le> \<lfloor>m\<rfloor>")
    case True
    with rne_ge_floor [of m] show ?thesis by simp
  next
    case False
    with f have eq: "\<lfloor>m\<rfloor> = n - 1" by simp
    with a have "m - of_int \<lfloor>m\<rfloor> > 1/2" by simp
    with eq show ?thesis by (simp add: rne_def Let_def)
  qed
qed

lemma round64_abs:
  assumes "x \<noteq> 0"
  shows "\<bar>round64 x\<bar> =
           of_int (rne (\<bar>x\<bar> / 2 powr of_int (\<lfloor>log 2 \<bar>x\<bar>\<rfloor> - 52))) * 2 powr of_int (\<lfloor>log 2 \<bar>x\<bar>\<rfloor> - 52)"
proof -
  have "0 \<le> \<bar>x\<bar> / 2 powr of_int (\<lfloor>log 2 \<bar>x\<bar>\<rfloor> - 52)" by simp
  then have "0 \<le> \<lfloor>\<bar>x\<bar> / 2 powr of_int (\<lfloor>log 2 \<bar>x\<bar>\<rfloor> - 52)\<rfloor>" by simp
  then have "0 \<le> rne (\<bar>x\<bar> / 2 powr of_int (\<lfloor>log 2 \<bar>x\<bar>\<rfloor> - 52))"
    using rne_ge_floor [of "\<bar>x\<bar> / 2 powr of_int (\<lfloor>log 2 \<bar>x\<bar>\<rfloor> - 52)"] by linarith
  with assms show ?thesis
    by (simp add: round64_def Let_def abs_mult abs_sgn_eq)
qed

lemma round64_out_of_tolerance:
  assumes "1 / 100 \<le> \<bar>x :: real\<bar>"
  shows "tolerance \<le> \<bar>round64 x\<bar>"
proof -
  define e where "e = \<lfloor>log 2 \<bar>x\<bar>\<rfloor>"
  define u :: real where "u = 2 powr of_int (e - 52)"
  define r where "r = rne (\<bar>x\<bar> / u)"
  from assms have nz: "x \<noteq> 0" and pos: "0 < \<bar>x\<bar>" by auto
  have abs: "\<bar>round64 x\<bar> = of_int r * u"
    using round64_abs [OF nz] by (simp add: e_def u_def r_def)
  have binade: "2 powr of_int e \<le> \<bar>x\<bar>" "\<bar>x\<bar> < 2 powr of_int (e + 1)"
    using floor_log_eq_powr_iff [of "\<bar>x\<bar>" 2 e] pos by (simp_all add: e_def)
  have upos: "0 < u" by (simp add: u_def)
  have e7: "- 7 \<le> e"
  proof (rule ccontr)
    assume "\<not> - 7 \<le> e"
    then have "of_int (e + 1) \<le> (- 7 :: real)" by simp
    then have "2 powr of_int (e + 1) \<le> (2::real) powr (- 7)"
      by (intro powr_mono) simp_all
    with binade(2) have "\<bar>x\<bar> < 1 / 128" by (simp add: powr_minus)
    with assms show False by simp
  qed
  show ?thesis
  proof (cases "e = - 7")
    case True
    then have u: "u = 1 / 576460752303423488"
      by (simp add: u_def powr_minus)
    have "\<bar>x\<bar> / u = \<bar>x\<bar> * 576460752303423488" by (simp add: u)
    with assms have "of_int 5764607523034235 - 1/2 < \<bar>x\<bar> / u" by simp
    then have "5764607523034235 \<le> r"
      unfolding r_def by (rule rne_ge)
    then have "(5764607523034235 :: real) \<le> of_int r" by linarith
    then show ?thesis
      by (simp add: abs tolerance_eq u)
  next
    case False
    with e7 have e6: "- 6 \<le> e" by simp
    have "\<bar>x\<bar> / u \<ge> 2 powr of_int e / u"
      using binade(1) upos by (simp add: divide_right_mono)
    moreover have "2 powr of_int e / u = 2 powr 52"
      by (simp add: u_def powr_diff)
    ultimately have "(4503599627370496 :: real) \<le> \<bar>x\<bar> / u" by simp
    then have "4503599627370496 \<le> \<lfloor>\<bar>x\<bar> / u\<rfloor>" by (simp add: le_floor_iff)
    with rne_ge_floor [of "\<bar>x\<bar> / u"] have "4503599627370496 \<le> r"
      unfolding r_def by linarith
    then have "(4503599627370496 :: real) \<le> of_int r" by linarith
    then have "4503599627370496 * u \<le> of_int r * u"
      using upos by simp
    moreover have "4503599627370496 * u = 2 powr of_int e"
      by (simp add: u_def powr_diff)
    moreover have "(2::real) powr (- 6) \<le> 2 powr of_int e"
      using e6 by (intro powr_mono) simp_all
    ultimately have "1 / 64 \<le> of_int r * u" by (simp add: powr_minus)
    then show ?thesis
      by (simp add: abs tolerance_eq)
  qed
qed

lemma fsub_out_of_tolerance: "1 / 100 \<le> \<bar>x - t :: real\<bar> \<Longrightarrow> \<not> \<bar>fsub x t\<bar> < tolerance"
  using round64_out_of_tolerance [of "x - t"] by (simp add: fsub_def)

lemma round64_tolerance: "round64 tolerance = tolerance"
  unfolding tolerance_eq
  using round64_binade [of "- 7" "5764607523034235 / 576460752303423488"]
  by (simp add: powr_minus rne_def)

text \<open>The floats written \<^verbatim>\<open>5.01\<close>, \<^verbatim>\<open>0.0075\<close> and \<^verbatim>\<open>-0.0025\<close>, and \<open>5 + 1/128\<close>.\<close>

lemma fsub_small: "fsub (641 / 128) 5 = 1 / 128"
  unfolding fsub_def
  using round64_binade [of "- 7" "641 / 128 - 5"] by (simp add: powr_minus rne_def)

lemma fsub_5_01: "fsub (2820379266640773 / 562949953421312) 5 = 5629499534213 / 562949953421312"
  unfolding fsub_def
  using round64_binade [of "- 7" "2820379266640773 / 562949953421312 - 5"]
  by (simp add: powr_minus rne_def)

lemma fsub_boundary:
  "fsub (1080863910568919 / 144115188075855872) (- (5764607523034235 / 2305843009213693952))
     = tolerance"
  unfolding fsub_def tolerance_eq
  using round64_binade [of "- 7"
      "1080863910568919 / 144115188075855872 - - (5764607523034235 / 2305843009213693952)"]
  by (simp add: powr_minus rne_def)

lemmas rounding_simps = fsub_def round64_0 round64_1 round64_3 round64_5 round64_minus tolerance_eq

section \<open>Rule evaluation\<close>

lemma apply_rules_head:
  "apply_rules (q # rs) h = apply_rules [q] h \<or>
   (apply_rules [q] h = Inr (False, h) \<and> apply_rules (q # rs) h = apply_rules rs h)"
  by (simp add: Let_def split: option.splits)

lemma apply_rules_one_rule:
  "apply_rules rs h = Inr (True, h') \<Longrightarrow> \<exists>q \<in> set rs. apply_rules [q] h = Inr (True, h')"
proof (induction rs)
  case Nil
  then show ?case by simp
next
  case (Cons q rs)
  from apply_rules_head [of q rs h] show ?case
  proof
    assume "apply_rules (q # rs) h = apply_rules [q] h"
    with Cons.prems show ?thesis by auto
  next
    assume "apply_rules [q] h = Inr (False, h) \<and> apply_rules (q # rs) h = apply_rules rs h"
    with Cons show ?thesis by auto
  qed
qed

lemma apply_rules_unchanged: "apply_rules rs h = Inr (False, h') \<Longrightarrow> h' = h"
proof (induction rs)
  case Nil
  then show ?case by simp
next
  case (Cons q rs)
  from apply_rules_head [of q rs h] show ?case
  proof
    assume "apply_rules (q # rs) h = apply_rules [q] h"
    with Cons.prems show ?thesis by (auto simp: Let_def split: option.splits if_splits)
  next
    assume "apply_rules [q] h = Inr (False, h) \<and> apply_rules (q # rs) h = apply_rules rs h"
    with Cons show ?thesis by auto
  qed
qed

text \<open>
  C1, as the code has it. A rule whose variable is not a key of the state is passed over,
  wherever it stands in the rule list: the rules are evaluated as if it were not there, and
  it raises nothing. (The guard of the loop is \<^verbatim>\<open>if var not in self.state: continue\<close>; the
  setpoint is read without a guard.)
\<close>

theorem absent_variable_skipped:
  "parse_rule r = Some (var, comparison, adjustment, amount) \<Longrightarrow> map_of (state h) var = None \<Longrightarrow>
   apply_rules (pre @ r # post) h = apply_rules (pre @ post) h"
  by (induction pre) (auto simp: Let_def split: option.splits if_splits)

theorem absent_variable_skipped_witness:
  "apply_rules (''If the pressure is above the setpoint, then decrease the pressure by 3.'' # example_rules)
     (init [(''temperature'', 10)] [(''temperature'', 5)] [] 100 0)
   = apply_rules example_rules (init [(''temperature'', 10)] [(''temperature'', 5)] [] 100 0)"
proof -
  have p: "parse_rule ''If the pressure is above the setpoint, then decrease the pressure by 3.''
             = Some (''pressure'', ''above'', ''decrease'', 3)"
    by (simp add: pattern_defs)
  have a: "map_of (state (init [(''temperature'', 10)] [(''temperature'', 5)] [] 100 0)) ''pressure'' = None"
    by (simp add: init_def)
  show ?thesis
    using absent_variable_skipped [OF p a, of "[]" example_rules] by simp
qed

text \<open>
  C1 as stated fails: a rule whose variable is a key of the state but not of the setpoint
  raises \<^verbatim>\<open>KeyError\<close> when the loop reaches it.
\<close>

theorem missing_setpoint_counterexample:
  "apply_rules [''If the b is above the setpoint, then decrease the b by 1.'']
     (init [(''a'', 10), (''b'', 1)] [(''a'', 5)] [] 3 0)
   = Inl (KeyError ''b'', init [(''a'', 10), (''b'', 1)] [(''a'', 5)] [] 3 0)"
  by (simp add: pattern_defs init_def)

section \<open>Tolerance\<close>

lemma stable_check_True_iff:
  "stable_check st sp = Inr True \<longleftrightarrow>
     (\<forall>(var, x) \<in> set st. \<exists>t. map_of sp var = Some t \<and> \<bar>fsub x t\<bar> < tolerance)"
  by (induction st) (auto split: option.splits if_splits)

lemma stable_check_boundary:
  "st \<noteq> [] \<Longrightarrow> (\<forall>(var, x) \<in> set st. \<exists>t. map_of sp var = Some t \<and> \<bar>fsub x t\<bar> = tolerance) \<Longrightarrow>
   stable_check st sp = Inr False"
  by (cases st) auto

text \<open>
  C2 as stated fails: both comparisons are \<^verbatim>\<open>< 0.01\<close>, so a deviation of exactly 0.01 is
  out of tolerance. That is so for the number \<open>1/100\<close> and for the float \<^verbatim>\<open>0.01\<close>, which is
  \<open>tolerance\<close>.
\<close>

theorem tolerance_boundary_counterexample:
  "\<bar>(0.01::real) - 0\<bar> = 0.01
   \<and> stable_check [(''temperature'', 0.01)] [(''temperature'', 0)] = Inr False
   \<and> \<not> condition ''equal to'' 0.01 0
   \<and> \<bar>fsub tolerance 0\<bar> = tolerance
   \<and> stable_check [(''temperature'', tolerance)] [(''temperature'', 0)] = Inr False
   \<and> \<not> condition ''equal to'' tolerance 0"
proof -
  have a: "fsub (1 / 100) 0 = tolerance"
    by (simp add: fsub_def tolerance_def)
  have b: "fsub tolerance 0 = tolerance"
    by (simp add: fsub_def round64_tolerance)
  have c: "\<bar>tolerance\<bar> = tolerance"
    by (simp add: tolerance_eq)
  show ?thesis
    by (simp add: condition_def a b c)
qed

text \<open>
  C2, as the code has it. The tolerance is strict, on the deviation as binary64 computes
  it. The stability check answers \<open>True\<close> exactly when every variable has a setpoint and
  the computed \<^verbatim>\<open>abs(state[v] - setpoint[v])\<close> is less than the float \<^verbatim>\<open>0.01\<close>; when the
  computed deviation of every variable equals that float it answers \<open>False\<close>; the
  condition of an \<^verbatim>\<open>equal to\<close> rule holds exactly when the computed deviation is less than
  the float \<^verbatim>\<open>0.01\<close>; and a deviation that is 0.01 or more before rounding is never within
  tolerance, in either test.
\<close>

theorem tolerance_is_strict:
  "(stable_check st sp = Inr True \<longleftrightarrow>
      (\<forall>(var, x) \<in> set st. \<exists>t. map_of sp var = Some t \<and> \<bar>fsub x t\<bar> < tolerance))
   \<and> (st \<noteq> [] \<and> (\<forall>(var, x) \<in> set st. \<exists>t. map_of sp var = Some t \<and> \<bar>fsub x t\<bar> = tolerance)
        \<longrightarrow> stable_check st sp = Inr False)
   \<and> (condition ''equal to'' current target \<longleftrightarrow> \<bar>fsub current target\<bar> < tolerance)
   \<and> ((\<exists>(var, x) \<in> set st. \<exists>t. map_of sp var = Some t \<and> 1 / 100 \<le> \<bar>x - t\<bar>)
        \<longrightarrow> stable_check st sp \<noteq> Inr True)
   \<and> (1 / 100 \<le> \<bar>current - target\<bar> \<longrightarrow> \<not> condition ''equal to'' current target)"
proof (intro conjI)
  show "stable_check st sp = Inr True \<longleftrightarrow>
      (\<forall>(var, x) \<in> set st. \<exists>t. map_of sp var = Some t \<and> \<bar>fsub x t\<bar> < tolerance)"
    by (rule stable_check_True_iff)
  show "st \<noteq> [] \<and> (\<forall>(var, x) \<in> set st. \<exists>t. map_of sp var = Some t \<and> \<bar>fsub x t\<bar> = tolerance)
        \<longrightarrow> stable_check st sp = Inr False"
    using stable_check_boundary [of st sp] by simp
  show "condition ''equal to'' current target \<longleftrightarrow> \<bar>fsub current target\<bar> < tolerance"
    by (simp add: condition_def)
  show "(\<exists>(var, x) \<in> set st. \<exists>t. map_of sp var = Some t \<and> 1 / 100 \<le> \<bar>x - t\<bar>)
        \<longrightarrow> stable_check st sp \<noteq> Inr True"
    unfolding stable_check_True_iff using fsub_out_of_tolerance by fastforce
  show "1 / 100 \<le> \<bar>current - target\<bar> \<longrightarrow> \<not> condition ''equal to'' current target"
    using fsub_out_of_tolerance [of current target] by (simp add: condition_def)
qed

theorem tolerance_is_strict_witness:
  "stable_check [(''temperature'', 641 / 128)] [(''temperature'', 5)] = Inr True
   \<and> stable_check [(''temperature'', 2820379266640773 / 562949953421312)] [(''temperature'', 5)]
       = Inr True
   \<and> stable_check [(''temperature'', 1080863910568919 / 144115188075855872)]
        [(''temperature'', - (5764607523034235 / 2305843009213693952))] = Inr False
   \<and> condition ''equal to'' (641 / 128) 5
   \<and> \<not> condition ''equal to'' (1080863910568919 / 144115188075855872)
         (- (5764607523034235 / 2305843009213693952))"
  using tolerance_is_strict [of "[(''temperature'', 641 / 128)]" "[(''temperature'', 5)]" "641 / 128" 5]
    tolerance_is_strict [of "[(''temperature'', 2820379266640773 / 562949953421312)]"
      "[(''temperature'', 5)]" "2820379266640773 / 562949953421312" 5]
    tolerance_is_strict [of "[(''temperature'', 1080863910568919 / 144115188075855872)]"
      "[(''temperature'', - (5764607523034235 / 2305843009213693952))]"
      "1080863910568919 / 144115188075855872" "- (5764607523034235 / 2305843009213693952)"]
  by (simp add: fsub_small fsub_5_01 fsub_boundary) (simp add: tolerance_eq)

section \<open>First match wins\<close>

lemma apply_rules_pass_over:
  assumes "\<forall>q \<in> set pre. parse_rule q = None \<or>
             (\<exists>v c a n. parse_rule q = Some (v, c, a, n) \<and>
                (map_of (state h) v = None \<or>
                 (\<exists>cur tgt. map_of (state h) v = Some cur \<and> map_of (setpoint h) v = Some tgt
                    \<and> \<not> condition c cur tgt)))"
  shows "apply_rules (pre @ rs) h = apply_rules rs h"
  using assms
proof (induction pre)
  case Nil
  show ?case by simp
next
  case (Cons q pre)
  then have rest: "apply_rules (pre @ rs) h = apply_rules rs h"
    by simp
  from Cons.prems have "parse_rule q = None \<or>
             (\<exists>v c a n. parse_rule q = Some (v, c, a, n) \<and>
                (map_of (state h) v = None \<or>
                 (\<exists>cur tgt. map_of (state h) v = Some cur \<and> map_of (setpoint h) v = Some tgt
                    \<and> \<not> condition c cur tgt)))"
    by simp
  then have "apply_rules (q # pre @ rs) h = apply_rules (pre @ rs) h"
    by auto
  with rest show ?case by simp
qed

text \<open>
  C5. When every rule before \<open>r\<close> fails to parse, names a variable the state does not have,
  or has a false condition, and \<open>r\<close> is a rule on a known variable whose condition holds,
  then the rule loop applies the action of \<open>r\<close> and nothing else, whatever rules \<open>post\<close>
  follow it: they are neither evaluated (none can raise) nor applied. And whenever the rule
  loop ends, the object is either unchanged or changed by the action of one single rule.
\<close>

theorem first_match_wins:
  assumes "\<forall>q \<in> set pre. parse_rule q = None \<or>
             (\<exists>v c a n. parse_rule q = Some (v, c, a, n) \<and>
                (map_of (state h) v = None \<or>
                 (\<exists>cur tgt. map_of (state h) v = Some cur \<and> map_of (setpoint h) v = Some tgt
                    \<and> \<not> condition c cur tgt)))"
    and "parse_rule r = Some (var, comparison, adjustment, amount)"
    and "map_of (state h) var = Some current"
    and "map_of (setpoint h) var = Some target"
    and "condition comparison current target"
  shows "apply_rules (pre @ r # post) h =
           Inr (True, h\<lparr>state := (if adjustment = ''decrease'' \<or> adjustment = ''increase''
                                   then dict_set var (adjust adjustment amount current) (state h)
                                   else state h),
                         printed := printed h @ [Applied r var (adjust adjustment amount current)]\<rparr>)
         \<and> (\<forall>rs applied h'. apply_rules rs h = Inr (applied, h') \<longrightarrow>
               (\<not> applied \<and> h' = h) \<or> (\<exists>q \<in> set rs. apply_rules [q] h = Inr (True, h')))"
proof
  have "apply_rules (pre @ r # post) h = apply_rules (r # post) h"
    using assms(1) by (rule apply_rules_pass_over)
  also have "\<dots> = Inr (True, h\<lparr>state := (if adjustment = ''decrease'' \<or> adjustment = ''increase''
                                   then dict_set var (adjust adjustment amount current) (state h)
                                   else state h),
                         printed := printed h @ [Applied r var (adjust adjustment amount current)]\<rparr>)"
    using assms(2-5) by (simp add: Let_def)
  finally show "apply_rules (pre @ r # post) h =
           Inr (True, h\<lparr>state := (if adjustment = ''decrease'' \<or> adjustment = ''increase''
                                   then dict_set var (adjust adjustment amount current) (state h)
                                   else state h),
                         printed := printed h @ [Applied r var (adjust adjustment amount current)]\<rparr>)" .
next
  show "\<forall>rs applied h'. apply_rules rs h = Inr (applied, h') \<longrightarrow>
               (\<not> applied \<and> h' = h) \<or> (\<exists>q \<in> set rs. apply_rules [q] h = Inr (True, h'))"
  proof (intro allI impI)
    fix rs applied h'
    assume a: "apply_rules rs h = Inr (applied, h')"
    show "(\<not> applied \<and> h' = h) \<or> (\<exists>q \<in> set rs. apply_rules [q] h = Inr (True, h'))"
    proof (cases applied)
      case True
      with a show ?thesis using apply_rules_one_rule [of rs h h'] by simp
    next
      case False
      with a show ?thesis using apply_rules_unchanged [of rs h h'] by simp
    qed
  qed
qed

theorem first_match_wins_witness:
  "apply_rules example_rules (init [(''temperature'', 4)] [(''temperature'', 5)] example_rules 100 0) =
     Inr (True, (init [(''temperature'', 4)] [(''temperature'', 5)] example_rules 100 0)
                  \<lparr>state := [(''temperature'', 5)],
                   printed := [Applied ''If the temperature is below the setpoint, then increase the temperature by 1.''
                                 ''temperature'' 5]\<rparr>)"
  using first_match_wins [of "[''If the temperature is above the setpoint, then decrease the temperature by 2.'']"
      "init [(''temperature'', 4)] [(''temperature'', 5)] example_rules 100 0"
      "''If the temperature is below the setpoint, then increase the temperature by 1.''"
      "''temperature''" "''below''" "''increase''" 1 4 5
      "[''If the temperature is equal to the setpoint, then maintain the temperature by 0.'']"]
  by (simp add: parse_rule_above parse_rule_below condition_def adjust_def init_def example_rules_def)

section \<open>The loop\<close>

text \<open>A random source for examples: every draw returns the same number.\<close>

definition constant_source :: "real \<Rightarrow> nat \<Rightarrow> real" where
  "constant_source r i = r"

lemma valid_source_not_neg: "valid_source rnd \<Longrightarrow> \<not> rnd i < 0"
  by (simp add: valid_source_def not_less)

lemma perturb_zero:
  "valid_source rnd \<Longrightarrow> perturb rnd 0 st n = (st, [], n + length st)"
  by (induction st arbitrary: n) (auto simp: valid_source_not_neg)

lemma apply_perturbation_zero:
  "valid_source rnd \<Longrightarrow> perturbation_chance h = 0 \<Longrightarrow>
   apply_perturbation rnd h = h\<lparr>draws := draws h + length (state h)\<rparr>"
  by (simp add: apply_perturbation_def perturb_zero)

lemma example_loop:
  assumes "5 \<le> n" and "valid_source rnd"
  shows "while_loop rnd 0 (init [(''temperature'', 10)] [(''temperature'', 5)] example_rules n 0) =
    Inr (4, \<lparr>state = [(''temperature'', 5)], setpoint = [(''temperature'', 5)], rules = example_rules,
       max_iterations = n, perturbation_chance = 0,
       history = [[(''temperature'', 10)], [(''temperature'', 8)], [(''temperature'', 6)],
                  [(''temperature'', 4)], [(''temperature'', 5)]],
       printed =
         [Applied ''If the temperature is above the setpoint, then decrease the temperature by 2.'' ''temperature'' 8,
          Iteration 1 [(''temperature'', 8)],
          Applied ''If the temperature is above the setpoint, then decrease the temperature by 2.'' ''temperature'' 6,
          Iteration 2 [(''temperature'', 6)],
          Applied ''If the temperature is above the setpoint, then decrease the temperature by 2.'' ''temperature'' 4,
          Iteration 3 [(''temperature'', 4)],
          Applied ''If the temperature is below the setpoint, then increase the temperature by 1.'' ''temperature'' 5,
          Iteration 4 [(''temperature'', 5)],
          Stabilized],
       draws = 4\<rparr>)"
  using assms
  by (simp add: init_def example_rules_def while_loop.simps apply_perturbation_zero
      parse_rule_above parse_rule_below parse_rule_equal_to condition_def adjust_def rounding_simps)

text \<open>
  C3. With the three example rules, state \<open>{temperature: 10}\<close>, setpoint \<open>{temperature: 5}\<close>,
  perturbation chance 0 and a bound of at least 5 iterations, \<open>run\<close> returns the state
  \<open>{temperature: 5}\<close> and the history 10, 8, 6, 4, 5; it ends at the stability check of its
  fifth pass (the message printed last is that the system stabilized, after four completed
  iterations), and the bound is not reported as reached.
\<close>

theorem example_run_stabilizes:
  assumes "5 \<le> n" and "valid_source rnd"
  shows "run rnd (init [(''temperature'', 10)] [(''temperature'', 5)] example_rules n 0) =
    Inr \<lparr>state = [(''temperature'', 5)], setpoint = [(''temperature'', 5)], rules = example_rules,
       max_iterations = n, perturbation_chance = 0,
       history = [[(''temperature'', 10)], [(''temperature'', 8)], [(''temperature'', 6)],
                  [(''temperature'', 4)], [(''temperature'', 5)]],
       printed =
         [Applied ''If the temperature is above the setpoint, then decrease the temperature by 2.'' ''temperature'' 8,
          Iteration 1 [(''temperature'', 8)],
          Applied ''If the temperature is above the setpoint, then decrease the temperature by 2.'' ''temperature'' 6,
          Iteration 2 [(''temperature'', 6)],
          Applied ''If the temperature is above the setpoint, then decrease the temperature by 2.'' ''temperature'' 4,
          Iteration 3 [(''temperature'', 4)],
          Applied ''If the temperature is below the setpoint, then increase the temperature by 1.'' ''temperature'' 5,
          Iteration 4 [(''temperature'', 5)],
          Stabilized],
       draws = 4\<rparr>"
  using assms by (simp add: run_def example_loop)

theorem example_run_stabilizes_witness:
  "state (projr (run (constant_source 0) (init [(''temperature'', 10)] [(''temperature'', 5)] example_rules 100 0)))
     = [(''temperature'', 5)]
   \<and> history (projr (run (constant_source 0) (init [(''temperature'', 10)] [(''temperature'', 5)] example_rules 100 0)))
     = [[(''temperature'', 10)], [(''temperature'', 8)], [(''temperature'', 6)],
        [(''temperature'', 4)], [(''temperature'', 5)]]
   \<and> last (printed (projr (run (constant_source 0) (init [(''temperature'', 10)] [(''temperature'', 5)] example_rules 100 0))))
     = Stabilized"
  using example_run_stabilizes [of 100 "constant_source 0"]
  by (simp add: valid_source_def constant_source_def)

section \<open>One pass of the loop\<close>

lemma while_loop_exit:
  "\<not> iteration < max_iterations h \<Longrightarrow> while_loop rnd iteration h = Inr (iteration, h)"
  by (simp add: while_loop.simps)

lemma while_loop_stabilized:
  "iteration < max_iterations h \<Longrightarrow> stable_check (state h) (setpoint h) = Inr True \<Longrightarrow>
   while_loop rnd iteration h =
     Inr (iteration, h\<lparr>history := history h @ [state h], printed := printed h @ [Stabilized]\<rparr>)"
  by (simp add: while_loop.simps)

lemma while_loop_key_error:
  "iteration < max_iterations h \<Longrightarrow> stable_check (state h) (setpoint h) = Inl e \<Longrightarrow>
   while_loop rnd iteration h = Inl (e, h\<lparr>history := history h @ [state h]\<rparr>)"
  by (simp add: while_loop.simps)

lemma stable_check_no_error:
  "\<forall>(v, x) \<in> set st. map_of sp v \<noteq> None \<Longrightarrow> \<exists>b. stable_check st sp = Inr b"
  by (induction st) auto

lemma stable_check_False:
  assumes "\<forall>(v, x) \<in> set st. map_of sp v \<noteq> None"
    and "\<exists>(v, x) \<in> set st. \<exists>t. map_of sp v = Some t \<and> \<bar>x - t\<bar> > 0.01"
  shows "stable_check st sp = Inr False"
proof -
  from assms(1) obtain b where b: "stable_check st sp = Inr b"
    using stable_check_no_error by blast
  have "\<not> b"
  proof
    assume b
    with b have "\<forall>(var, x) \<in> set st. \<exists>t. map_of sp var = Some t \<and> \<bar>fsub x t\<bar> < tolerance"
      by (simp add: stable_check_True_iff)
    moreover from assms(2) obtain v x t where "(v, x) \<in> set st" and "map_of sp v = Some t"
      and "1 / 100 \<le> \<bar>x - t\<bar>"
      by fastforce
    ultimately show False
      using fsub_out_of_tolerance [of x t] by fastforce
  qed
  with b show ?thesis by simp
qed

text \<open>With no rules and no perturbation a pass changes nothing but the records.\<close>

lemma upt_0_Suc: "[0..<Suc k] = 0 # map Suc [0..<k]"
  by (simp only: map_Suc_upt upt_conv_Cons [OF zero_less_Suc])

lemma idle_loop:
  assumes "valid_source rnd" and "rules h = []" and "perturbation_chance h = 0"
    and "stable_check (state h) (setpoint h) = Inr False"
    and "iteration \<le> max_iterations h" and "k = nat (max_iterations h - iteration)"
  shows "while_loop rnd iteration h =
     Inr (max_iterations h,
          h\<lparr>history := history h @ replicate k (state h),
            draws := draws h + k * length (state h),
            printed := printed h @
              concat (map (\<lambda>i. [NoRule, Iteration (iteration + 1 + int i) (state h)]) [0..<k])\<rparr>)"
  using assms
proof (induction k arbitrary: iteration h)
  case 0
  then have "iteration = max_iterations h" by simp
  then show ?case by (simp add: while_loop_exit)
next
  case (Suc k)
  let ?h' = "h\<lparr>history := history h @ [state h],
                draws := draws h + length (state h),
                printed := printed h @ [NoRule, Iteration (iteration + 1) (state h)]\<rparr>"
  from Suc.prems have lt: "iteration < max_iterations h" by simp
  have step: "while_loop rnd iteration h = while_loop rnd (iteration + 1) ?h'"
    using Suc.prems(1-4) lt
    by (subst while_loop.simps) (simp add: apply_perturbation_zero Let_def)
  have ih: "while_loop rnd (iteration + 1) ?h' =
     Inr (max_iterations ?h',
          ?h'\<lparr>history := history ?h' @ replicate k (state ?h'),
            draws := draws ?h' + k * length (state ?h'),
            printed := printed ?h' @
              concat (map (\<lambda>i. [NoRule, Iteration (iteration + 1 + 1 + int i) (state ?h')]) [0..<k])\<rparr>)"
    using Suc.prems by (intro Suc.IH) auto
  show ?case
    unfolding step ih upt_0_Suc
    by (simp add: replicate_append_same comp_def algebra_simps del: upt_Suc)
qed

text \<open>
  C4 as stated fails twice. With a negative bound the loop body never runs and the bound is
  not reported as reached; and where the setpoint lacks a variable of the state, the
  stability check raises \<^verbatim>\<open>KeyError\<close> in the first pass.
\<close>

theorem idle_run_counterexample:
  "run (constant_source 0) (init [(''temperature'', 10)] [(''temperature'', 5)] [] (- 1) 0)
     = Inr (init [(''temperature'', 10)] [(''temperature'', 5)] [] (- 1) 0)
   \<and> run (constant_source 0) (init [(''a'', 1), (''b'', 10)] [(''b'', 5)] [] 3 0)
     = Inl (KeyError ''a'',
            (init [(''a'', 1), (''b'', 10)] [(''b'', 5)] [] 3 0)\<lparr>history := [[(''a'', 1), (''b'', 10)]]\<rparr>)"
  by (simp add: run_def init_def while_loop.simps)

text \<open>
  C4, as the code has it. \<open>run\<close> returns the state and the history only; how it ended is
  told by what it printed. With no rules, perturbation chance 0, a bound \<open>n \<ge> 0\<close>, a
  setpoint for every variable of the state and some variable more than 0.01 away from its
  setpoint, the loop makes exactly \<open>n\<close> passes, each printing that no rule applied; the
  state is the initial one, the history is \<open>n\<close> copies of it, and the last message is
  that the bound was reached.
\<close>

theorem idle_run_reaches_bound:
  assumes "valid_source rnd" and "0 \<le> n"
    and "\<forall>(v, x) \<in> set st. map_of sp v \<noteq> None"
    and "\<exists>(v, x) \<in> set st. \<exists>t. map_of sp v = Some t \<and> \<bar>x - t\<bar> > 0.01"
  shows "run rnd (init st sp [] n 0) =
     Inr ((init st sp [] n 0)
            \<lparr>history := replicate (nat n) st,
             draws := nat n * length st,
             printed := concat (map (\<lambda>i. [NoRule, Iteration (1 + int i) st]) [0..<nat n])
                          @ [MaxIterations]\<rparr>)"
proof -
  have "stable_check (state (init st sp [] n 0)) (setpoint (init st sp [] n 0)) = Inr False"
    using stable_check_False [OF assms(3,4)] by (simp add: init_def)
  then have "while_loop rnd 0 (init st sp [] n 0) =
     Inr (max_iterations (init st sp [] n 0),
          (init st sp [] n 0)\<lparr>history := history (init st sp [] n 0) @ replicate (nat n) (state (init st sp [] n 0)),
            draws := draws (init st sp [] n 0) + nat n * length (state (init st sp [] n 0)),
            printed := printed (init st sp [] n 0) @
              concat (map (\<lambda>i. [NoRule, Iteration (0 + 1 + int i) (state (init st sp [] n 0))]) [0..<nat n])\<rparr>)"
    using assms(1,2) by (intro idle_loop) (simp_all add: init_def)
  then show ?thesis
    by (simp add: run_def init_def)
qed

theorem idle_run_reaches_bound_witness:
  "run (constant_source 0) (init [(''temperature'', 10)] [(''temperature'', 5)] [] 2 0) =
     Inr ((init [(''temperature'', 10)] [(''temperature'', 5)] [] 2 0)
            \<lparr>history := [[(''temperature'', 10)], [(''temperature'', 10)]],
             draws := 2,
             printed := [NoRule, Iteration 1 [(''temperature'', 10)],
                         NoRule, Iteration 2 [(''temperature'', 10)], MaxIterations]\<rparr>)"
  using idle_run_reaches_bound [of "constant_source 0" 2 "[(''temperature'', 10)]" "[(''temperature'', 5)]"]
  by (simp add: valid_source_def constant_source_def numeral_2_eq_2)

section \<open>Configuration\<close>

text \<open>
  C8 as stated fails: nothing checks the configuration. A bound of 0 gives an ordinary
  return, and a setpoint without the variable of the state gives \<^verbatim>\<open>KeyError\<close> from inside
  the loop, after the first snapshot went into the history.
\<close>

theorem configuration_error_counterexample:
  "run (constant_source 0) (init [(''temperature'', 10)] [(''temperature'', 5)] example_rules 0 0)
     = Inr ((init [(''temperature'', 10)] [(''temperature'', 5)] example_rules 0 0)
              \<lparr>printed := [MaxIterations]\<rparr>)
   \<and> run (constant_source 0) (init [(''temperature'', 10)] [] example_rules 100 0)
     = Inl (KeyError ''temperature'',
            (init [(''temperature'', 10)] [] example_rules 100 0)\<lparr>history := [[(''temperature'', 10)]]\<rparr>)"
  by (simp add: run_def init_def while_loop.simps)

text \<open>
  C8, as the code has it. With a bound \<open>n \<le> 0\<close>, \<open>run\<close> raises nothing: the loop body never
  runs, the state and the empty history come back as they were, and for \<open>n = 0\<close> the bound
  is reported as reached. With a bound \<open>n > 0\<close> and a setpoint that lacks the first variable
  of the state, \<open>run\<close> raises \<^verbatim>\<open>KeyError\<close> in the first pass of the loop, after that pass
  appended its snapshot to the history.
\<close>

theorem no_configuration_check:
  "(n \<le> 0 \<longrightarrow>
      run rnd (init st sp rs n chance) =
        Inr ((init st sp rs n chance)\<lparr>printed := (if n = 0 then [MaxIterations] else [])\<rparr>))
   \<and> (0 < n \<and> map_of sp v = None \<longrightarrow>
      run rnd (init ((v, x) # st) sp rs n chance) =
        Inl (KeyError v, (init ((v, x) # st) sp rs n chance)\<lparr>history := [(v, x) # st]\<rparr>))"
  by (simp add: run_def init_def while_loop.simps)

theorem no_configuration_check_witness:
  "run (constant_source 0) (init [(''temperature'', 10)] [(''temperature'', 5)] example_rules (- 3) 0)
     = Inr (init [(''temperature'', 10)] [(''temperature'', 5)] example_rules (- 3) 0)
   \<and> run (constant_source 0) (init [(''temperature'', 10)] [(''pressure'', 1)] example_rules 1 0)
     = Inl (KeyError ''temperature'',
            (init [(''temperature'', 10)] [(''pressure'', 1)] example_rules 1 0)
              \<lparr>history := [[(''temperature'', 10)]]\<rparr>)"
  using no_configuration_check [of "- 3" "constant_source 0" "[(''temperature'', 10)]"
      "[(''temperature'', 5)]" example_rules 0 "''temperature''" 10]
    no_configuration_check [of 1 "constant_source 0" "[]" "[(''pressure'', 1)]" example_rules 0
      "''temperature''" 10]
  by (simp add: init_def)

section \<open>Stabilized runs\<close>

lemma perturb_events: "perturb rnd chance st n = (st', out, n') \<Longrightarrow> Stabilized \<notin> set out"
  by (induction st arbitrary: n st' out n') (auto simp: Let_def split: if_splits prod.splits)

lemma apply_perturbation_keeps:
  "setpoint (apply_perturbation rnd h) = setpoint h"
  "Stabilized \<in> set (printed (apply_perturbation rnd h)) \<Longrightarrow> Stabilized \<in> set (printed h)"
  by (auto simp: apply_perturbation_def split: prod.splits dest: perturb_events)

lemma apply_rules_single:
  assumes "apply_rules [q] h = Inr (True, h')"
  shows "\<exists>st v x. h' = h\<lparr>state := st, printed := printed h @ [Applied q v x]\<rparr>"
proof (cases "parse_rule q")
  case None
  with assms show ?thesis by simp
next
  case (Some t)
  obtain v c a n where t: "t = (v, c, a, n)" by (cases t)
  show ?thesis
  proof (cases "map_of (state h) v")
    case None
    with Some t assms show ?thesis by simp
  next
    case cur: (Some current)
    show ?thesis
    proof (cases "map_of (setpoint h) v")
      case None
      with Some t cur assms show ?thesis by simp
    next
      case tgt: (Some target)
      show ?thesis
      proof (cases "condition c current target")
        case False
        with Some t cur tgt assms show ?thesis by simp
      next
        case True
        with Some t cur tgt assms
        have "h' = h\<lparr>state := (if a = ''decrease'' \<or> a = ''increase''
                                 then dict_set v (adjust a n current) (state h) else state h),
                      printed := printed h @ [Applied q v (adjust a n current)]\<rparr>"
          by (simp add: Let_def)
        then show ?thesis by blast
      qed
    qed
  qed
qed

lemma apply_rules_keeps:
  assumes "apply_rules rs h = Inr (b, h')"
  shows "setpoint h' = setpoint h"
    and "Stabilized \<in> set (printed h') \<Longrightarrow> Stabilized \<in> set (printed h)"
proof -
  have c: "h' = h \<or> (\<exists>q st v x. h' = h\<lparr>state := st, printed := printed h @ [Applied q v x]\<rparr>)"
  proof (cases b)
    case True
    with assms obtain q where "apply_rules [q] h = Inr (True, h')"
      using apply_rules_one_rule [of rs h h'] by auto
    then show ?thesis using apply_rules_single [of q h h'] by blast
  next
    case False
    with assms show ?thesis using apply_rules_unchanged [of rs h h'] by simp
  qed
  from c show "setpoint h' = setpoint h" by auto
  from c show "Stabilized \<in> set (printed h') \<Longrightarrow> Stabilized \<in> set (printed h)" by auto
qed

lemma while_loop_stabilized_final:
  "while_loop rnd iteration h = Inr (iteration', h') \<Longrightarrow> Stabilized \<notin> set (printed h) \<Longrightarrow>
   Stabilized \<in> set (printed h') \<Longrightarrow> stable_check (state h') (setpoint h) = Inr True"
proof (induction rnd iteration h rule: while_loop.induct)
  case (1 rnd iteration h)
  show ?case
  proof (cases "iteration < max_iterations h")
    case False
    with "1.prems" show ?thesis by (simp add: while_loop_exit)
  next
    case lt: True
    let ?h1 = "h\<lparr>history := history h @ [state h]\<rparr>"
    show ?thesis
    proof (cases "stable_check (state h) (setpoint h)")
      case (Inl e)
      with lt "1.prems" show ?thesis by (simp add: while_loop_key_error)
    next
      case (Inr b)
      show ?thesis
      proof (cases b)
        case True
        with Inr lt "1.prems" show ?thesis by (auto simp: while_loop_stabilized)
      next
        case False
        let ?h2 = "apply_perturbation rnd ?h1"
        from False Inr lt "1.prems"(1) obtain applied h3 where
          r: "apply_rules (rules ?h2) ?h2 = Inr (applied, h3)"
          by (subst (asm) while_loop.simps) (auto simp: Let_def split: sum.splits)
        let ?h4 = "if \<not> applied then h3\<lparr>printed := printed h3 @ [NoRule]\<rparr> else h3"
        let ?h5 = "?h4\<lparr>printed := printed ?h4 @ [Iteration (iteration + 1) (state ?h4)]\<rparr>"
        have eq: "while_loop rnd iteration h = while_loop rnd (iteration + 1) ?h5"
          using False Inr lt r by (subst while_loop.simps) (simp add: Let_def)
        have sp: "setpoint ?h5 = setpoint h"
          using apply_rules_keeps(1) [OF r] by (simp add: apply_perturbation_keeps)
        have np: "Stabilized \<notin> set (printed ?h5)"
          using apply_rules_keeps(2) [OF r] apply_perturbation_keeps(2) [of rnd ?h1] "1.prems"(2)
          by auto
        have "stable_check (state h') (setpoint ?h5) = Inr True"
          using lt Inr False r "1.prems"(1,3) np eq
          by (intro "1.IH" [of ?h1 b ?h2 "(applied, h3)" applied h3 ?h4 "iteration + 1" ?h5])
            (simp_all)
        with sp show ?thesis by simp
      qed
    qed
  qed
qed

text \<open>
  C9. When a run ends at the stability check, a second run from the state it returned, with
  the same setpoint, rules and bound and perturbation chance 0, whatever the random source,
  stops at its first stability check: it applies no perturbation and no rule, its history is
  the one snapshot of its input, and the state it returns is its input.
\<close>

theorem stabilized_run_idempotent:
  assumes "run rnd (init st sp rs n chance) = Inr h'" and "Stabilized \<in> set (printed h')"
  shows "run rnd' (init (state h') sp rs n 0) =
           Inr ((init (state h') sp rs n 0)\<lparr>history := [state h'], printed := [Stabilized]\<rparr>)"
proof -
  from assms(1) obtain iteration h'' where
    w: "while_loop rnd 0 (init st sp rs n chance) = Inr (iteration, h'')"
    and h': "h' = (if iteration = max_iterations h'' then h''\<lparr>printed := printed h'' @ [MaxIterations]\<rparr> else h'')"
    by (auto simp: run_def split: sum.splits)
  from h' assms(2) have s: "Stabilized \<in> set (printed h'')" and st: "state h' = state h''"
    by (auto split: if_splits)
  have pos: "0 < n"
  proof (rule ccontr)
    assume "\<not> 0 < n"
    then have "while_loop rnd 0 (init st sp rs n chance) = Inr (0, init st sp rs n chance)"
      by (simp add: while_loop_exit init_def)
    with w s show False by (simp add: init_def)
  qed
  have "stable_check (state h'') (setpoint (init st sp rs n chance)) = Inr True"
    using w s by (intro while_loop_stabilized_final [OF w]) (simp_all add: init_def)
  then have "stable_check (state h') sp = Inr True"
    using st by (simp add: init_def)
  then have "while_loop rnd' 0 (init (state h') sp rs n 0) =
      Inr (0, (init (state h') sp rs n 0)\<lparr>history := [state h'], printed := [Stabilized]\<rparr>)"
    using pos by (simp add: while_loop_stabilized init_def)
  with pos show ?thesis by (simp add: run_def init_def)
qed

theorem stabilized_run_idempotent_witness:
  "run (constant_source (1/2)) (init [(''temperature'', 5)] [(''temperature'', 5)] example_rules 100 0) =
     Inr ((init [(''temperature'', 5)] [(''temperature'', 5)] example_rules 100 0)
            \<lparr>history := [[(''temperature'', 5)]], printed := [Stabilized]\<rparr>)"
proof -
  have v: "valid_source (constant_source 0)"
    by (simp add: valid_source_def constant_source_def)
  have "while_loop (constant_source 0) 0
          (init [(''temperature'', 10)] [(''temperature'', 5)] example_rules 100 0) =
    Inr (4, \<lparr>state = [(''temperature'', 5)], setpoint = [(''temperature'', 5)], rules = example_rules,
       max_iterations = 100, perturbation_chance = 0,
       history = [[(''temperature'', 10)], [(''temperature'', 8)], [(''temperature'', 6)],
                  [(''temperature'', 4)], [(''temperature'', 5)]],
       printed =
         [Applied ''If the temperature is above the setpoint, then decrease the temperature by 2.'' ''temperature'' 8,
          Iteration 1 [(''temperature'', 8)],
          Applied ''If the temperature is above the setpoint, then decrease the temperature by 2.'' ''temperature'' 6,
          Iteration 2 [(''temperature'', 6)],
          Applied ''If the temperature is above the setpoint, then decrease the temperature by 2.'' ''temperature'' 4,
          Iteration 3 [(''temperature'', 4)],
          Applied ''If the temperature is below the setpoint, then increase the temperature by 1.'' ''temperature'' 5,
          Iteration 4 [(''temperature'', 5)],
          Stabilized],
       draws = 4\<rparr>)" (is "_ = Inr (4, ?h)")
    using v by (intro example_loop) simp
  then have r: "run (constant_source 0)
          (init [(''temperature'', 10)] [(''temperature'', 5)] example_rules 100 0) = Inr ?h"
    by (simp add: run_def)
  have s: "Stabilized \<in> set (printed ?h)"
    by simp
  show ?thesis
    using stabilized_run_idempotent [OF r s, of "constant_source (1/2)"] by simp
qed

section \<open>The bar variant keeps its state non-negative\<close>

text \<open>No value in the state or in a snapshot of the history is negative.\<close>

definition never_negative :: "homeostat \<Rightarrow> bool" where
  "never_negative h = (\<forall>s \<in> set (state h # history h). \<forall>(v, x) \<in> set s. 0 \<le> x)"

definition bar_rules :: "string list" where
  "bar_rules =
     [''If the aggression level is above the setpoint, then decrease the aggression level by 2 using calming music.'',
      ''If the aggression level is below the setpoint, then increase the aggression level by 1 using upbeat tunes.'',
      ''If the aggression level is equal to the setpoint, then maintain the aggression level by 0 using standard service.'']"

lemma bar_parse_rule_above:
  "bar_parse_rule ''If the aggression level is above the setpoint, then decrease the aggression level by 2 using calming music.''
     = Some (''aggression level'', ''above'', ''decrease'', 2, ''calming music'')"
  by (simp add: pattern_defs)

lemma bar_perturb_nonneg:
  "valid_source rnd \<Longrightarrow> \<forall>(v, x) \<in> set st. 0 \<le> x \<Longrightarrow> bar_perturb rnd chance st n = (st', out, n') \<Longrightarrow>
   \<forall>(v, x) \<in> set st'. 0 \<le> x"
proof (induction st arbitrary: n st' out n')
  case Nil
  then show ?case by simp
next
  case (Cons p st)
  obtain v x where p: "p = (v, x)" by (cases p)
  have r: "0 \<le> rnd (n + 1)" using Cons.prems(1) by (simp add: valid_source_def)
  show ?case
  proof (cases "rnd n < chance")
    case True
    obtain st2 out2 n2 where rec: "bar_perturb rnd chance st (n + 2) = (st2, out2, n2)"
      by (cases "bar_perturb rnd chance st (n + 2)")
    with True p Cons.prems(3)
    have st': "st' = (v, x + uniform 0 2 (rnd (n + 1))) # st2"
      by (simp add: Let_def)
    have "\<forall>(v, x) \<in> set st2. 0 \<le> x"
      using Cons.IH [OF Cons.prems(1) _ rec] Cons.prems(2) by simp
    moreover have "0 \<le> x + uniform 0 2 (rnd (n + 1))"
      using r Cons.prems(2) p by (simp add: uniform_def)
    ultimately show ?thesis using st' by simp
  next
    case False
    obtain st2 out2 n2 where rec: "bar_perturb rnd chance st (n + 1) = (st2, out2, n2)"
      by (cases "bar_perturb rnd chance st (n + 1)")
    with False p Cons.prems(3) have st': "st' = (v, x) # st2"
      by simp
    have "\<forall>(v, x) \<in> set st2. 0 \<le> x"
      using Cons.IH [OF Cons.prems(1) _ rec] Cons.prems(2) by simp
    then show ?thesis using st' Cons.prems(2) p by simp
  qed
qed

lemma bar_apply_perturbation_nonneg:
  "valid_source rnd \<Longrightarrow> never_negative h \<Longrightarrow> never_negative (bar_apply_perturbation rnd h)"
  unfolding never_negative_def bar_apply_perturbation_def
  using bar_perturb_nonneg [of rnd "state h" "perturbation_chance h" "draws h"]
  by (auto split: prod.splits)

lemma dict_set_nonneg:
  "\<forall>(v, x) \<in> set st. 0 \<le> x \<Longrightarrow> 0 \<le> y \<Longrightarrow> \<forall>(v, x) \<in> set (dict_set k y st). 0 \<le> x"
  by (induction st) (auto split: if_splits)

lemma bar_apply_rules_nonneg:
  "never_negative h \<Longrightarrow> bar_apply_rules rs h = Inr (b, h') \<Longrightarrow> never_negative h'"
proof (induction rs)
  case Nil
  then show ?case by simp
next
  case (Cons q rs)
  show ?case
  proof (cases "bar_apply_rules (q # rs) h = bar_apply_rules rs h")
    case True
    with Cons show ?thesis by simp
  next
    case False
    then obtain v c a n l current target where
      "h' = h\<lparr>state := dict_set v (max 0 (adjust a n current)) (state h),
               printed := printed h @ [BarApplied q l v (max 0 (adjust a n current))]\<rparr>"
      using Cons.prems(2)
      by (auto simp: Let_def split: option.splits if_splits)
    then show ?thesis
      using Cons.prems(1) dict_set_nonneg [of "state h" "max 0 (adjust a n current)" v]
      by (simp add: never_negative_def)
  qed
qed

lemma bar_apply_rules_error: "bar_apply_rules rs h = Inl (e, h') \<Longrightarrow> h' = h"
  by (induction rs) (auto simp: Let_def split: option.splits if_splits)

lemma bar_while_loop_nonneg:
  "valid_source rnd \<Longrightarrow> never_negative h \<Longrightarrow>
   (case bar_while_loop rnd iteration h of
      Inl (e, h') \<Rightarrow> never_negative h'
    | Inr (iteration', h') \<Rightarrow> never_negative h')"
proof (induction rnd iteration h rule: bar_while_loop.induct)
  case (1 rnd iteration h)
  let ?h1 = "h\<lparr>history := history h @ [state h]\<rparr>"
  have n1: "never_negative ?h1"
    using "1.prems"(2) by (simp add: never_negative_def)
  show ?case
  proof (cases "iteration < max_iterations h")
    case False
    with "1.prems" show ?thesis by (simp add: bar_while_loop.simps)
  next
    case lt: True
    show ?thesis
    proof (cases "stable_check (state h) (setpoint h)")
      case (Inl e)
      with lt n1 show ?thesis by (simp add: bar_while_loop.simps)
    next
      case (Inr b)
      show ?thesis
      proof (cases b)
        case True
        with Inr lt n1 show ?thesis
          by (simp add: bar_while_loop.simps never_negative_def)
      next
        case False
        let ?h2 = "bar_apply_perturbation rnd ?h1"
        have n2: "never_negative ?h2"
          using n1 "1.prems"(1) by (rule bar_apply_perturbation_nonneg [rotated])
        show ?thesis
        proof (cases "bar_apply_rules (rules ?h2) ?h2")
          case err: (Inl p)
          obtain e h' where p: "p = (e, h')" by (cases p)
          with err have "h' = ?h2" using bar_apply_rules_error by blast
          with err p n2 lt Inr False show ?thesis
            by (subst bar_while_loop.simps) (simp add: Let_def)
        next
          case ok: (Inr p)
          obtain applied h3 where p: "p = (applied, h3)" by (cases p)
          let ?h4 = "if \<not> applied then h3\<lparr>printed := printed h3 @ [NoRule]\<rparr> else h3"
          let ?h5 = "?h4\<lparr>printed := printed ?h4 @ [Iteration (iteration + 1) (state ?h4)]\<rparr>"
          have n3: "never_negative h3"
            using n2 ok p bar_apply_rules_nonneg by blast
          then have n5: "never_negative ?h5"
            by (simp add: never_negative_def)
          have eq: "bar_while_loop rnd iteration h = bar_while_loop rnd (iteration + 1) ?h5"
            using False Inr lt ok p by (subst bar_while_loop.simps) (simp add: Let_def)
          have "case bar_while_loop rnd (iteration + 1) ?h5 of
                  Inl (e, h') \<Rightarrow> never_negative h'
                | Inr (iteration', h') \<Rightarrow> never_negative h'"
            using lt Inr False ok p "1.prems"(1) n5
            by (intro "1.IH" [of ?h1 b ?h2 "(applied, h3)" applied h3 ?h4 "iteration + 1" ?h5])
              simp_all
          with eq show ?thesis by simp
        qed
      qed
    qed
  qed
qed

text \<open>
  C10. When every value of the initial state is at least 0 and the random generator
  returns numbers in \<open>[0, 1)\<close>, then however a run of the bar variant ends (it returns, or
  the read of a missing setpoint raises), every value in every snapshot of the history and
  in the final state is at least 0.
\<close>

theorem bar_state_never_negative:
  assumes "valid_source rnd" and "\<forall>(v, x) \<in> set st. 0 \<le> x"
  shows "case bar_run rnd (init st sp rs n chance) of
           Inl (e, h') \<Rightarrow> never_negative h'
         | Inr h' \<Rightarrow> never_negative h'"
proof -
  have "never_negative (init st sp rs n chance)"
    using assms(2) by (simp add: never_negative_def init_def)
  then have "case bar_while_loop rnd 0 (init st sp rs n chance) of
               Inl (e, h') \<Rightarrow> never_negative h'
             | Inr (iteration', h') \<Rightarrow> never_negative h'"
    using assms(1) by (intro bar_while_loop_nonneg)
  then show ?thesis
    by (auto simp: bar_run_def never_negative_def split: sum.splits)
qed

theorem bar_state_never_negative_witness:
  "bar_run (constant_source (1/4)) (init [(''aggression level'', 1)] [(''aggression level'', 0)] bar_rules 1 0.3)
     = Inr \<lparr>state = [(''aggression level'', 0)], setpoint = [(''aggression level'', 0)],
            rules = bar_rules, max_iterations = 1, perturbation_chance = 0.3,
            history = [[(''aggression level'', 1)]],
            printed = [Perturbation ''aggression level'' (1/2),
                       BarApplied ''If the aggression level is above the setpoint, then decrease the aggression level by 2 using calming music.''
                         ''calming music'' ''aggression level'' 0,
                       Iteration 1 [(''aggression level'', 0)], MaxIterations],
            draws = 2\<rparr>
   \<and> never_negative (projr (bar_run (constant_source (1/4))
        (init [(''aggression level'', 1)] [(''aggression level'', 0)] bar_rules 1 0.3)))"
proof -
  have r: "bar_run (constant_source (1/4)) (init [(''aggression level'', 1)] [(''aggression level'', 0)] bar_rules 1 0.3)
     = Inr \<lparr>state = [(''aggression level'', 0)], setpoint = [(''aggression level'', 0)],
            rules = bar_rules, max_iterations = 1, perturbation_chance = 0.3,
            history = [[(''aggression level'', 1)]],
            printed = [Perturbation ''aggression level'' (1/2),
                       BarApplied ''If the aggression level is above the setpoint, then decrease the aggression level by 2 using calming music.''
                         ''calming music'' ''aggression level'' 0,
                       Iteration 1 [(''aggression level'', 0)], MaxIterations],
            draws = 2\<rparr>"
    by (simp add: bar_run_def init_def bar_rules_def bar_while_loop.simps bar_apply_perturbation_def
        constant_source_def uniform_def bar_parse_rule_above condition_def adjust_def Let_def
        rounding_simps)
  have v: "valid_source (constant_source (1/4))"
    by (simp add: valid_source_def constant_source_def)
  have s: "\<forall>(v, x) \<in> set [(''aggression level'', 1::real)]. 0 \<le> x"
    by simp
  show ?thesis
    using bar_state_never_negative [OF v s, of "[(''aggression level'', 0)]" bar_rules 1 "0.3"] r
    by simp
qed

section \<open>Properties of the matcher\<close>



lemma plus_fallback:
  "acc \<noteq> [] \<Longrightarrow> P c \<Longrightarrow> plus P (acc @ [c]) s k = None \<Longrightarrow> plus P acc (c # s) k = k acc (c # s)"
  by simp
















section \<open>Parsing rules\<close>







end
